theory Spec2Isabelle
  imports Complex_Main "HOL-Library.Char_ord" "HOL-Library.List_Lexorder" "HOL-Library.Multiset"
begin

section \<open>JavaScript values seen by the report page\<close>

text \<open>
  The page \<^verbatim>\<open>app/pages/[org]/repos/[repo]/commits/[commit]/report.js\<close> works on
  values that come out of \<^verbatim>\<open>JSON.parse\<close> (the data of the fetch) and on the route
  parameters. A value is one of the JSON shapes plus \<^verbatim>\<open>undefined\<close>; an object
  lists its properties, each name once (of a name repeated in the JSON text the parser
  keeps the last value). JavaScript numbers are IEEE doubles; they are kept abstract
  (the type variable \<open>'n\<close>) and the built-in operations on them are parameters,
  collected in the record \<open>builtins\<close>.
\<close>

datatype 'n js =
    JUndefined
  | JNull
  | JBool bool
  | JNum 'n
  | JStr string
  | JArr "'n js list"
  | JObj "(string \<times> 'n js) list"

datatype js_exn = TypeError

text \<open>
  The built-ins of the language that the page relies on and that depend on doubles:
  whether a number is \<^verbatim>\<open>0\<close> or \<^verbatim>\<open>NaN\<close> (the falsy numbers), \<^verbatim>\<open>Number::toString\<close>,
  the operator \<^verbatim>\<open>*\<close> with its coercion of both operands to numbers, numeric literals
  and \<^verbatim>\<open>Number.prototype.toFixed\<close>.
\<close>

record 'n builtins =
  num_falsy :: "'n \<Rightarrow> bool"
  num_to_string :: "'n \<Rightarrow> string"
  js_times :: "'n js \<Rightarrow> 'n js \<Rightarrow> 'n"
  num_lit :: "nat \<Rightarrow> 'n"
  toFixed :: "'n \<Rightarrow> nat \<Rightarrow> string"

text \<open>\<^verbatim>\<open>!v\<close>: the falsy values are undefined, null, false, 0, NaN and the empty string.\<close>

fun falsy :: "'n builtins \<Rightarrow> 'n js \<Rightarrow> bool" where
  "falsy b JUndefined = True"
| "falsy b JNull = True"
| "falsy b (JBool x) = (\<not> x)"
| "falsy b (JNum n) = num_falsy b n"
| "falsy b (JStr s) = (s = [])"
| "falsy b (JArr xs) = False"
| "falsy b (JObj kvs) = False"

text \<open>
  \<^verbatim>\<open>v.name\<close> for a name that no prototype defines (\<^verbatim>\<open>result\<close>, \<^verbatim>\<open>filename\<close>,
  \<^verbatim>\<open>line_rate\<close>): reading a property of undefined or null throws a TypeError, an object
  gives the value stored under the name, and everything else gives undefined.
\<close>

fun get_prop :: "'n js \<Rightarrow> string \<Rightarrow> js_exn + 'n js" where
  "get_prop JUndefined k = Inl TypeError"
| "get_prop JNull k = Inl TypeError"
| "get_prop (JObj kvs) k = Inr (case map_of kvs k of None \<Rightarrow> JUndefined | Some v \<Rightarrow> v)"
| "get_prop v k = Inr JUndefined"

text \<open>
  String conversion, as the operator \<^verbatim>\<open>+\<close> with a string on its left and a template
  literal apply it. An array joins its elements with commas, with null and undefined
  elements as empty strings; a plain object is \<^verbatim>\<open>[object Object]\<close>.
\<close>

fun join_with :: "string \<Rightarrow> string list \<Rightarrow> string" where
  "join_with sep [] = []"
| "join_with sep [x] = x"
| "join_with sep (x # y # ys) = x @ sep @ join_with sep (y # ys)"

fun to_string :: "'n builtins \<Rightarrow> 'n js \<Rightarrow> string" where
  "to_string b JUndefined = ''undefined''"
| "to_string b JNull = ''null''"
| "to_string b (JBool x) = (if x then ''true'' else ''false'')"
| "to_string b (JNum n) = num_to_string b n"
| "to_string b (JStr s) = s"
| "to_string b (JArr xs) =
     join_with '','' (map (\<lambda>x. case x of JUndefined \<Rightarrow> [] | JNull \<Rightarrow> [] | _ \<Rightarrow> to_string b x) xs)"
| "to_string b (JObj kvs) = ''[object Object]''"

text \<open>
  \<^verbatim>\<open>Array.prototype.map\<close> with a callback that may throw: the first exception ends
  the loop. \<open>call_map\<close> is the method call \<^verbatim>\<open>v.map(f)\<close> on a value out of JSON: only
  an array has a callable \<^verbatim>\<open>map\<close>.
\<close>

fun map_exn :: "('a \<Rightarrow> js_exn + 'b) \<Rightarrow> 'a list \<Rightarrow> js_exn + 'b list" where
  "map_exn f [] = Inr []"
| "map_exn f (x # xs) =
     (case f x of
        Inl e \<Rightarrow> Inl e
      | Inr y \<Rightarrow> (case map_exn f xs of Inl e \<Rightarrow> Inl e | Inr ys \<Rightarrow> Inr (y # ys)))"

fun call_map :: "'n js \<Rightarrow> ('n js \<Rightarrow> js_exn + 'b) \<Rightarrow> js_exn + 'b list" where
  "call_map (JArr xs) f = map_exn f xs"
| "call_map v f = Inl TypeError"

section \<open>The report page\<close>

text \<open>
  What a component returns is a tree of React elements: an element has a type (a tag
  such as \<^verbatim>\<open>td\<close>, or a component such as \<^verbatim>\<open>Link\<close>), its props in the order
  written, and its children; a child is an element or a value put there with braces or
  as text.
\<close>

datatype 'n node =
    Element string "(string \<times> 'n js) list" "'n node list"
  | Expr "'n js"

text \<open>The route parameters that Next.js passes for the three dynamic segments.\<close>

record params =
  org :: string
  repo :: string
  commit :: string

definition params_js :: "params \<Rightarrow> 'n js" where
  "params_js p = JObj [(''org'', JStr (org p)), (''repo'', JStr (repo p)), (''commit'', JStr (commit p))]"

text \<open>What \<^verbatim>\<open>useSWR\<close> returns.\<close>

record 'n swr =
  data :: "'n js"
  error :: "'n js"

text \<open>
  The module's imports from \<^verbatim>\<open>utils\<close> and \<^verbatim>\<open>swr\<close> are not part of the page:
  \<^verbatim>\<open>apiUrl\<close> and \<^verbatim>\<open>calcTagClassName\<close> are parameters, and \<^verbatim>\<open>useSWR\<close> is the
  function from the key (the URL) to the current state of that fetch.
\<close>

record 'n env =
  apiUrl :: "'n js"
  calcTagClassName :: "'n js \<Rightarrow> 'n js"
  useSWR :: "string \<Rightarrow> 'n swr"

definition files_key :: "'n builtins \<Rightarrow> 'n env \<Rightarrow> params \<Rightarrow> string" where
  "files_key b im p =
     to_string b (apiUrl im) @ ''/'' @ org p @ ''/repos/'' @ repo p @ ''/commits/'' @ commit p @ ''/files''"

definition report_key :: "'n builtins \<Rightarrow> 'n env \<Rightarrow> params \<Rightarrow> string" where
  "report_key b im p =
     to_string b (apiUrl im) @ ''/'' @ org p @ ''/repos/'' @ repo p @ ''/commits/'' @ commit p @ ''/report''"

text \<open>The \<^verbatim>\<open>href\<close> of a row's link (lines 30 to 39).\<close>

definition file_href :: "'n builtins \<Rightarrow> params \<Rightarrow> 'n js \<Rightarrow> string" where
  "file_href b p fname =
     ''/'' @ org p @ ''/repos/'' @ repo p @ ''/commits/'' @ commit p @ ''/file?filename='' @ to_string b fname"

text \<open>The callback of \<^verbatim>\<open>data.result.map\<close> (lines 25 to 49): one table row.\<close>

definition file_row :: "'n builtins \<Rightarrow> 'n env \<Rightarrow> params \<Rightarrow> 'n js \<Rightarrow> js_exn + 'n node" where
  "file_row b im p v =
     (case get_prop v ''filename'' of
        Inl e \<Rightarrow> Inl e
      | Inr fname \<Rightarrow>
     (case get_prop v ''line_rate'' of
        Inl e \<Rightarrow> Inl e
      | Inr rate \<Rightarrow>
          Inr (Element ''tr'' [(''key'', fname)]
                [Element ''td'' []
                   [Element ''Link'' [(''href'', JStr (file_href b p fname))]
                      [Element ''a'' [] [Expr fname]]],
                 Element ''td'' [(''className'', calcTagClassName im rate)]
                   [Expr (JStr (toFixed b (js_times b rate (JNum (num_lit b 100))) 1)),
                    Expr (JStr ''%'')]])))"

definition table_head :: "'n node" where
  "table_head =
     Element ''thead'' []
       [Element ''tr'' []
          [Element ''th'' [] [Expr (JStr ''Filename'')],
           Element ''th'' [] [Expr (JStr ''Coverage'')]]]"

definition ReportUrls :: "'n builtins \<Rightarrow> 'n env \<Rightarrow> params \<Rightarrow> js_exn + 'n node" where
  "ReportUrls b im p =
     (let r = useSWR im (files_key b im p) in
      if falsy b (data r) then Inr (Element ''div'' [] [])
      else
        (case get_prop (data r) ''result'' of
           Inl e \<Rightarrow> Inl e
         | Inr res \<Rightarrow>
        (case call_map res (file_row b im p) of
           Inl e \<Rightarrow> Inl e
         | Inr rows \<Rightarrow>
             Inr (Element ''table'' [(''className'', JStr ''table'')]
                    [table_head, Element ''tbody'' [] rows]))))"

text \<open>
  \<^verbatim>\<open>ReportPage\<close> returns the element for \<^verbatim>\<open>ReportUrls\<close> without calling it: React
  renders that component afterwards, with the same \<^verbatim>\<open>params\<close>.
\<close>

definition ReportPage :: "'n builtins \<Rightarrow> 'n env \<Rightarrow> params \<Rightarrow> js_exn + 'n node" where
  "ReportPage b im p =
     (let r = useSWR im (report_key b im p) in
      if falsy b (data r) then Inr (Element ''div'' [] [])
      else
        Inr (Element ''div'' [(''className'', JStr ''container'')]
               [Element ''Header'' [] [],
                Element ''Report'' [(''report'', data r)] [],
                Element ''h3'' [(''className'', JStr ''title'')] [Expr (JStr ''Package coverage'')],
                Element ''ReportUrls'' [(''params'', params_js p)] [],
                Element ''Footer'' [] []]))"

text \<open>Reading a rendered table back: the rows of the body, and the key of a row.\<close>

fun table_rows :: "'n node \<Rightarrow> 'n node list" where
  "table_rows (Element t props [h, Element t' props' rows]) = rows"
| "table_rows n = []"

fun row_key :: "'n node \<Rightarrow> 'n js" where
  "row_key (Element t props cs) = (case map_of props ''key'' of None \<Rightarrow> JUndefined | Some v \<Rightarrow> v)"
| "row_key (Expr v) = JUndefined"

text \<open>The address of the link in the first cell of a row.\<close>

fun row_href :: "'n node \<Rightarrow> 'n js" where
  "row_href (Element t props (Element t' props' (Element t'' props'' cs # cs') # cs'')) =
     (case map_of props'' ''href'' of None \<Rightarrow> JUndefined | Some v \<Rightarrow> v)"
| "row_href n = JUndefined"


section \<open>Reading a link back\<close>

text \<open>
  How the address of a link is taken apart again (RFC 3986 and the
  \<^verbatim>\<open>application/x-www-form-urlencoded\<close> parser behind \<^verbatim>\<open>URLSearchParams\<close>): the
  fragment starts at the first \<^verbatim>\<open>#\<close>; before it, the query starts after the first
  \<^verbatim>\<open>?\<close>; the query is cut at every \<^verbatim>\<open>&\<close>, empty pieces are dropped, a piece is cut
  at its first \<^verbatim>\<open>=\<close> into a name and a value, and in both \<^verbatim>\<open>+\<close> becomes a space
  and \<^verbatim>\<open>%XX\<close> the byte with that code. Strings are sequences of bytes.
\<close>

definition hex_digit :: "char \<Rightarrow> nat option" where
  "hex_digit c =
     (let n = of_char c :: nat in
      if 48 \<le> n \<and> n \<le> 57 then Some (n - 48)
      else if 65 \<le> n \<and> n \<le> 70 then Some (n - 55)
      else if 97 \<le> n \<and> n \<le> 102 then Some (n - 87)
      else None)"

fun percent_decode :: "string \<Rightarrow> string" where
  "percent_decode (c # h # l # s) =
     (if c = CHR ''%'' then
        (case (hex_digit h, hex_digit l) of
           (Some x, Some y) \<Rightarrow> char_of (16 * x + y) # percent_decode s
         | _ \<Rightarrow> c # percent_decode (h # l # s))
      else c # percent_decode (h # l # s))"
| "percent_decode (c # s) = c # percent_decode s"
| "percent_decode [] = []"

definition form_decode :: "string \<Rightarrow> string" where
  "form_decode s = percent_decode (map (\<lambda>c. if c = CHR ''+'' then CHR '' '' else c) s)"

fun split_on :: "char \<Rightarrow> string \<Rightarrow> string list" where
  "split_on sep [] = [[]]"
| "split_on sep (c # s) =
     (if c = sep then [] # split_on sep s
      else (case split_on sep s of [] \<Rightarrow> [[c]] | w # ws \<Rightarrow> (c # w) # ws))"

definition url_query :: "string \<Rightarrow> string option" where
  "url_query url =
     (let u = takeWhile (\<lambda>c. c \<noteq> CHR ''#'') url in
      if CHR ''?'' \<in> set u then Some (drop 1 (dropWhile (\<lambda>c. c \<noteq> CHR ''?'') u)) else None)"

definition query_pairs :: "string \<Rightarrow> (string \<times> string) list" where
  "query_pairs q =
     map (\<lambda>w. (form_decode (takeWhile (\<lambda>c. c \<noteq> CHR ''='') w),
               form_decode (drop 1 (dropWhile (\<lambda>c. c \<noteq> CHR ''='') w))))
       (filter (\<lambda>w. w \<noteq> []) (split_on CHR ''&'' q))"

text \<open>The value of the first parameter of that name, as \<^verbatim>\<open>URLSearchParams.get\<close> gives it.\<close>

definition query_get :: "string \<Rightarrow> string \<Rightarrow> string option" where
  "query_get name url =
     (case url_query url of None \<Rightarrow> None | Some q \<Rightarrow> map_of (query_pairs q) name)"

text \<open>Route parameters with no \<^verbatim>\<open>?\<close> in them.\<close>

definition plain_segment :: "string \<Rightarrow> bool" where
  "plain_segment s = (CHR ''?'' \<notin> set s)"

definition plain_params :: "params \<Rightarrow> bool" where
  "plain_params p = (plain_segment (org p) \<and> plain_segment (repo p) \<and> plain_segment (commit p))"

section \<open>The engine behind the API\<close>

text \<open>
  The page is a client of the coverage engine (Aggregator, Store, Query API). Of the
  engine only this client is among the repository's files modelled above, so the
  definitions of this section are modelled from the specification, each marked as
  such. Upload requests are taken one at a time. Rates are exact
  rationals here (the quotient that the engine rounds to a double); branch data and
  per-line hit counts, which no statement below is about, are left out.
\<close>

text \<open>
  Modelled from the spec: a FileCoverage row (section 3): the normalized filename and the
  two line counts.
\<close>

record file_coverage =
  filename :: string
  total_lines :: nat
  covered_lines :: nat

text \<open>
  Modelled from the spec: the errors of the engine (section 7).
\<close>

datatype engine_error =
    ParseError
  | UnsupportedFormatError
  | InvalidPathError
  | EmptyReportError
  | NotFoundError
  | ConflictError
  | StorageUnavailableError

text \<open>
  Modelled from the spec: the Aggregator's per-file rate (section 4.2 and the
  invariants of section 3). \<open>line_rate = covered_lines / total_lines\<close> when
  \<open>total_lines > 0\<close>; a file with \<open>total_lines = 0\<close> has no rate (\<open>None\<close>, the flag
  "no executable lines").
\<close>

definition file_line_rate :: "file_coverage \<Rightarrow> rat option" where
  "file_line_rate f =
     (if total_lines f = 0 then None
      else Some (of_nat (covered_lines f) / of_nat (total_lines f)))"

text \<open>
  Modelled from the spec: the files that count in a rollup (section 4.2,
  \<open>\<Sigma> covered_lines / \<Sigma> total_lines\<close> over the files with \<open>total_lines > 0\<close>).
\<close>

definition executable :: "file_coverage list \<Rightarrow> file_coverage list" where
  "executable fs = filter (\<lambda>f. total_lines f > 0) fs"

text \<open>
  Modelled from the spec: the denominator of a rollup (section 4.2), the sum of
  \<open>total_lines\<close> over the files with \<open>total_lines > 0\<close>.
\<close>

definition sum_total :: "file_coverage list \<Rightarrow> nat" where
  "sum_total fs = sum_list (map total_lines (executable fs))"

text \<open>
  Modelled from the spec: the numerator of a rollup (section 4.2), the sum of
  \<open>covered_lines\<close> over the same files.
\<close>

definition sum_covered :: "file_coverage list \<Rightarrow> nat" where
  "sum_covered fs = sum_list (map covered_lines (executable fs))"

text \<open>
  Modelled from the spec: the weighted formula (section 4.2), used for a package and for
  the whole report alike; undefined (\<open>None\<close>) when the denominator is 0.
\<close>

definition rollup :: "file_coverage list \<Rightarrow> rat option" where
  "rollup fs =
     (if sum_total fs = 0 then None
      else Some (of_nat (sum_covered fs) / of_nat (sum_total fs)))"

text \<open>
  Modelled from the spec: the Aggregator's failure (section 4.2). It returns
  \<open>EmptyReportError\<close> when no file of the draft has \<open>total_lines > 0\<close>.
\<close>

definition aggregate :: "file_coverage list \<Rightarrow> engine_error + rat" where
  "aggregate fs = (case rollup fs of None \<Rightarrow> Inl EmptyReportError | Some r \<Rightarrow> Inr r)"

text \<open>
  Modelled from the spec: a Report as the Aggregator hands it to the Store (section 3):
  the upload timestamp, the aggregate rate, the totals and the file rows.
\<close>

record report_draft =
  uploaded_at :: nat
  line_rate :: "rat option"
  report_total_lines :: nat
  report_covered_lines :: nat
  files :: "file_coverage list"

text \<open>
  Modelled from the spec: the identity of a commit (section 6): organization, repository
  and commit identifiers.
\<close>

type_synonym commit_key = "string \<times> string \<times> string"

text \<open>
  Modelled from the spec: a stored Report (sections 3 and 6): the draft with its
  identifier, commit, content hash and \<open>current\<close> flag.
\<close>

record report = report_draft +
  report_id :: nat
  report_commit :: commit_key
  content_hash :: string
  current :: bool

text \<open>
  Modelled from the spec: the caller's policy on an empty report (section 4.2,
  Failure). With \<open>accept_empty\<close> (the default) a draft with no executable line is
  accepted and its aggregate is undefined; otherwise the upload ends with
  \<open>EmptyReportError\<close>.
\<close>

definition make_draft :: "bool \<Rightarrow> nat \<Rightarrow> file_coverage list \<Rightarrow> engine_error + report_draft" where
  "make_draft accept_empty now fs =
     (case aggregate fs of
        Inl e \<Rightarrow>
          (if accept_empty then
             Inr \<lparr>uploaded_at = now, line_rate = None, report_total_lines = sum_total fs,
                  report_covered_lines = sum_covered fs, files = fs\<rparr>
           else Inl e)
      | Inr r \<Rightarrow>
          Inr \<lparr>uploaded_at = now, line_rate = Some r, report_total_lines = sum_total fs,
               report_covered_lines = sum_covered fs, files = fs\<rparr>)"

text \<open>
  Modelled from the spec: the Store (sections 4.3 and 6), one request at a time. The
  tables \<open>organizations\<close>, \<open>repositories\<close> and \<open>commits\<close> hold natural keys;
  \<open>reports\<close> holds the Report rows, each with its file rows.
\<close>

record store =
  organizations :: "string list"
  repositories :: "(string \<times> string) list"
  commits :: "commit_key list"
  reports :: "report list"

text \<open>
  Modelled from the spec: the store before any upload; rows are created lazily (section
  3, Lifecycle).
\<close>

definition empty_store :: store where
  "empty_store = \<lparr>organizations = [], repositories = [], commits = [], reports = []\<rparr>"

text \<open>
  Modelled from the spec: upsert by natural key (section 3, Lifecycle).
\<close>

definition upsert :: "'a \<Rightarrow> 'a list \<Rightarrow> 'a list" where
  "upsert x xs = (if x \<in> set xs then xs else xs @ [x])"

text \<open>
  Modelled from the spec: the identifier of a new Report row (section 6); any identifier
  not in use serves, here one more than the largest.
\<close>

definition fresh_id :: "store \<Rightarrow> nat" where
  "fresh_id s = Suc (fold max (map report_id (reports s)) 0)"

text \<open>
  Modelled from the spec: \<open>Upload(org, repo, commit, contentHash, report)\<close>
  (section 4.3). A Report with the same commit and content hash is returned as it is,
  and the store is left unchanged. Otherwise the organization, repository and commit
  are upserted, the commit's Reports lose the \<open>current\<close> flag and the new Report is
  inserted with it. \<open>retire\<close> takes the flag from a Report of the commit.
\<close>

definition retire :: "commit_key \<Rightarrow> report \<Rightarrow> report" where
  "retire k r = (if report_commit r = k then r\<lparr>current := False\<rparr> else r)"

text \<open>
  Modelled from the spec: \<open>Upload\<close> itself (section 4.3), with the idempotent
  path first.
\<close>

definition Upload :: "store \<Rightarrow> commit_key \<Rightarrow> string \<Rightarrow> report_draft \<Rightarrow> report \<times> store" where
  "Upload s k h d =
     (case find (\<lambda>r. report_commit r = k \<and> content_hash r = h) (reports s) of
        Some r \<Rightarrow> (r, s)
      | None \<Rightarrow>
          (let new = \<lparr>uploaded_at = uploaded_at d, line_rate = line_rate d,
                      report_total_lines = report_total_lines d,
                      report_covered_lines = report_covered_lines d, files = files d,
                      report_id = fresh_id s, report_commit = k, content_hash = h,
                      current = True\<rparr>
           in (new,
               \<lparr>organizations = upsert (fst k) (organizations s),
                repositories = upsert (fst k, fst (snd k)) (repositories s),
                commits = upsert k (commits s),
                reports = map (retire k) (reports s) @ [new]\<rparr>)))"

text \<open>
  Modelled from the spec: \<open>GetCurrentReport\<close> (section 4.3): the Report of the
  commit that is marked current, or \<open>NotFoundError\<close>.
\<close>

definition GetCurrentReport :: "store \<Rightarrow> commit_key \<Rightarrow> engine_error + report" where
  "GetCurrentReport s k =
     (case find (\<lambda>r. report_commit r = k \<and> current r) (reports s) of
        None \<Rightarrow> Inl NotFoundError
      | Some r \<Rightarrow> Inr r)"

text \<open>
  Modelled from the spec: \<open>ListFiles\<close> (section 4.3): the file rows of the
  current Report, ordered by filename ascending.
\<close>

definition ListFiles :: "store \<Rightarrow> commit_key \<Rightarrow> engine_error + file_coverage list" where
  "ListFiles s k =
     (case GetCurrentReport s k of
        Inl e \<Rightarrow> Inl e
      | Inr r \<Rightarrow> Inr (sort_key filename (files r)))"

text \<open>
  Modelled from the spec: the upload path (section 2, control flow): Aggregator, then
  Store. An Aggregator error ends the upload before any write.
\<close>

definition upload_endpoint ::
  "bool \<Rightarrow> store \<Rightarrow> commit_key \<Rightarrow> string \<Rightarrow> nat \<Rightarrow> file_coverage list \<Rightarrow> (engine_error + report) \<times> store" where
  "upload_endpoint accept_empty s k h now fs =
     (case make_draft accept_empty now fs of
        Inl e \<Rightarrow> (Inl e, s)
      | Inr d \<Rightarrow> (let (r, s') = Upload s k h d in (Inr r, s')))"

text \<open>
  Modelled from the spec: what an upload request carries (section 6): the commit
  identity, the content hash of the payload, the time of the upload and the files of the
  normalized payload.
\<close>

type_synonym upload_request = "commit_key \<times> string \<times> nat \<times> file_coverage list"

text \<open>
  Modelled from the spec: the stores that exist (section 3, Lifecycle): the empty store
  after any sequence of uploads, since nothing else writes.
\<close>

definition run_uploads :: "bool \<Rightarrow> upload_request list \<Rightarrow> store" where
  "run_uploads accept_empty ups =
     foldl (\<lambda>s (k, h, now, fs). snd (upload_endpoint accept_empty s k h now fs)) empty_store ups"

text \<open>
  The Query API (sections 4.4 and 6). A response is \<open>200\<close> with a body or
  \<open>404\<close>. The body of the files endpoint is the JSON object
  \<open>{result: [{filename, line_rate, total_lines, covered_lines}, \<dots>]}\<close> in the order
  of \<open>ListFiles\<close>; \<open>enc\<close> is the double that a rational is sent as, and a file
  without a rate has \<open>null\<close> there. Names are compared byte by byte.
\<close>

text \<open>
  Modelled from the spec: the two answers of a query (section 6).
\<close>

datatype 'a response = Ok200 'a | NotFound404

text \<open>
  Modelled from the spec: the body of \<open>GET report\<close> (section 6), without the
  branch rate.
\<close>

record report_summary =
  summary_line_rate :: "rat option"
  summary_total_lines :: nat
  summary_covered_lines :: nat

text \<open>
  Modelled from the spec: \<open>GET report\<close> (sections 4.4 and 6), a projection of
  \<open>GetCurrentReport\<close>.
\<close>

definition get_report :: "store \<Rightarrow> commit_key \<Rightarrow> report_summary response" where
  "get_report s k =
     (case GetCurrentReport s k of
        Inl e \<Rightarrow> NotFound404
      | Inr r \<Rightarrow>
          Ok200 \<lparr>summary_line_rate = line_rate r, summary_total_lines = report_total_lines r,
                 summary_covered_lines = report_covered_lines r\<rparr>)"

text \<open>
  Modelled from the spec: the \<open>line_rate\<close> field of a file record (section
  6).
\<close>

definition rate_json :: "(rat \<Rightarrow> 'n) \<Rightarrow> file_coverage \<Rightarrow> 'n js" where
  "rate_json enc f = (case file_line_rate f of None \<Rightarrow> JNull | Some r \<Rightarrow> JNum (enc r))"

text \<open>
  Modelled from the spec: a file record of the files endpoint (section 6).
\<close>

definition file_json :: "(rat \<Rightarrow> 'n) \<Rightarrow> file_coverage \<Rightarrow> 'n js" where
  "file_json enc f =
     JObj [(''filename'', JStr (filename f)),
           (''line_rate'', rate_json enc f),
           (''total_lines'', JNum (enc (of_nat (total_lines f)))),
           (''covered_lines'', JNum (enc (of_nat (covered_lines f))))]"

text \<open>
  Modelled from the spec: the body of the files endpoint (section 6).
\<close>

definition files_body :: "(rat \<Rightarrow> 'n) \<Rightarrow> file_coverage list \<Rightarrow> 'n js" where
  "files_body enc fs = JObj [(''result'', JArr (map (file_json enc) fs))]"

text \<open>
  Modelled from the spec: \<open>GET files\<close> (sections 4.4 and 6), a projection of
  \<open>ListFiles\<close>.
\<close>

definition get_files :: "(rat \<Rightarrow> 'n) \<Rightarrow> store \<Rightarrow> commit_key \<Rightarrow> 'n js response" where
  "get_files enc s k =
     (case ListFiles s k of
        Inl e \<Rightarrow> NotFound404
      | Inr fs \<Rightarrow> Ok200 (files_body enc fs))"

text \<open>
  Modelled from the spec: the line-weighted mean of the per-file rates (section 8):
  each file with \<open>total_lines > 0\<close> counts with its rate, weighted by its lines.
\<close>

definition weighted_mean :: "file_coverage list \<Rightarrow> rat option" where
  "weighted_mean fs =
     (let g = executable fs;
          w = sum_list (map (\<lambda>f. of_nat (total_lines f)) g) :: rat
      in if w = 0 then None
         else Some (sum_list (map (\<lambda>f. of_nat (total_lines f) *
                      (of_nat (covered_lines f) / of_nat (total_lines f))) g) / w))"

text \<open>The names of an object's properties, in order.\<close>

fun js_keys :: "'n js \<Rightarrow> string list" where
  "js_keys (JObj kvs) = map fst kvs"
| "js_keys v = []"

section \<open>Example inputs\<close>

text \<open>
  An instance of the built-ins over the rationals, for the examples: \<open>toFixed\<close>
  rounds half away from zero and prints the digits, as the language does on the values
  used below; \<open>0\<close> stands for NaN.
\<close>

fun show_nat :: "nat \<Rightarrow> string" where
  "show_nat n =
     (if n < 10 then [char_of (48 + n)] else show_nat (n div 10) @ [char_of (48 + n mod 10)])"

definition example_toFixed :: "rat \<Rightarrow> nat \<Rightarrow> string" where
  "example_toFixed x d =
     (let m = nat \<lfloor>\<bar>x\<bar> * 10 ^ d + 1 / 2\<rfloor>;
          frac = show_nat (m mod 10 ^ d)
      in (if x < 0 \<and> m \<noteq> 0 then ''-'' else []) @ show_nat (m div 10 ^ d) @
         (if d = 0 then [] else ''.'' @ replicate (d - length frac) CHR ''0'' @ frac))"

fun example_to_number :: "rat js \<Rightarrow> rat" where
  "example_to_number (JNum n) = n"
| "example_to_number (JBool x) = (if x then 1 else 0)"
| "example_to_number v = 0"

definition example_builtins :: "rat builtins" where
  "example_builtins =
     \<lparr>num_falsy = (\<lambda>n. n = 0),
      num_to_string = (\<lambda>n. example_toFixed n 0),
      js_times = (\<lambda>x y. example_to_number x * example_to_number y),
      num_lit = of_nat,
      toFixed = example_toFixed\<rparr>"

definition example_params :: params where
  "example_params = \<lparr>org = ''acme'', repo = ''web'', commit = ''4f2a''\<rparr>"

text \<open>A tag function for the examples: three classes by rate.\<close>

definition example_tag :: "rat js \<Rightarrow> rat js" where
  "example_tag v =
     (if example_to_number v > 8 / 10 then JStr ''is-success''
      else if example_to_number v > 5 / 10 then JStr ''is-warning''
      else JStr ''is-danger'')"

text \<open>A fetch that has failed: no data, an error object.\<close>

definition failed_env :: "rat env" where
  "failed_env =
     \<lparr>apiUrl = JStr ''http://localhost:8080/api'',
      calcTagClassName = example_tag,
      useSWR = (\<lambda>key. \<lparr>data = JUndefined, error = JObj [(''message'', JStr ''Failed to fetch'')]\<rparr>)\<rparr>"

text \<open>A fetch that has answered with the given body.\<close>

definition answered_env :: "rat js \<Rightarrow> rat env" where
  "answered_env body =
     \<lparr>apiUrl = JStr ''http://localhost:8080/api'',
      calcTagClassName = example_tag,
      useSWR = (\<lambda>key. \<lparr>data = body, error = JUndefined\<rparr>)\<rparr>"

text \<open>A body whose rows are neither sorted nor free of repetition.\<close>

definition unsorted_body :: "rat js" where
  "unsorted_body =
     JObj [(''result'',
        JArr [JObj [(''filename'', JStr ''b.py''), (''line_rate'', JNum 1)],
              JObj [(''filename'', JStr ''a.py''), (''line_rate'', JNum (1 / 2))],
              JObj [(''filename'', JStr ''b.py''), (''line_rate'', JNum 0)]])]"

definition f1 :: file_coverage where
  "f1 = \<lparr>filename = ''f1'', total_lines = 10, covered_lines = 10\<rparr>"

definition f2 :: file_coverage where
  "f2 = \<lparr>filename = ''f2'', total_lines = 10, covered_lines = 0\<rparr>"

definition f3 :: file_coverage where
  "f3 = \<lparr>filename = ''docs/empty.py'', total_lines = 0, covered_lines = 0\<rparr>"

definition example_commit :: commit_key where
  "example_commit = (''acme'', ''web'', ''4f2a'')"

text \<open>
  Two uploads for one commit: first a payload with no executable line, then the
  payload with \<open>f2\<close> and \<open>f1\<close>, in that order. The store after both.
\<close>

definition example_uploads :: "upload_request list" where
  "example_uploads =
     [(example_commit, ''77aa'', 50, [f3]), (example_commit, ''9c1d'', 100, [f2, f1])]"

definition earlier_report :: report where
  "earlier_report =
     \<lparr>uploaded_at = 50, line_rate = None, report_total_lines = 0, report_covered_lines = 0,
      files = [f3], report_id = 1, report_commit = example_commit, content_hash = ''77aa'',
      current = False\<rparr>"

definition stored_report :: report where
  "stored_report =
     \<lparr>uploaded_at = 100, line_rate = Some (1 / 2), report_total_lines = 20,
      report_covered_lines = 10, files = [f2, f1], report_id = 2,
      report_commit = example_commit, content_hash = ''9c1d'', current = True\<rparr>"

definition example_store :: store where
  "example_store =
     \<lparr>organizations = [''acme''], repositories = [(''acme'', ''web'')],
      commits = [example_commit], reports = [earlier_report, stored_report]\<rparr>"

section \<open>Properties of the report page\<close>

subsection \<open>Loops with exceptions\<close>

lemma map_exn_Inr: "map_exn f xs = Inr ys \<longleftrightarrow> list_all2 (\<lambda>x y. f x = Inr y) xs ys"
proof (induction xs arbitrary: ys)
  case Nil
  show ?case by auto
next
  case (Cons x xs)
  show ?case
  proof (cases "f x")
    case (Inl e)
    then show ?thesis by (auto simp: list_all2_Cons1)
  next
    case (Inr y)
    show ?thesis
    proof (cases "map_exn f xs")
      case (Inl e)
      have "\<not> list_all2 (\<lambda>x y. f x = Inr y) xs zs" for zs
        using Cons.IH [of zs] Inl by simp
      with Inl Inr show ?thesis by (auto simp: list_all2_Cons1)
    next
      case r: (Inr zs)
      have "list_all2 (\<lambda>x y. f x = Inr y) xs zs' \<longleftrightarrow> zs' = zs" for zs'
        using Cons.IH [of zs'] r by auto
      with Inr r show ?thesis by (auto simp: list_all2_Cons1)
    qed
  qed
qed

lemma call_map_Inr: "call_map v f = Inr ys \<Longrightarrow> \<exists>xs. v = JArr xs \<and> map_exn f xs = Inr ys"
  by (cases v) auto

lemma file_row_key:
  assumes "file_row b im p v = Inr row"
  shows "get_prop v ''filename'' = Inr (row_key row)"
  using assms by (auto simp: file_row_def split: sum.splits)

lemma ReportUrls_rows:
  assumes "ReportUrls b im p = Inr t"
    and "\<not> falsy b (data (useSWR im (files_key b im p)))"
  shows "\<exists>vs rows. get_prop (data (useSWR im (files_key b im p))) ''result'' = Inr (JArr vs)
           \<and> t = Element ''table'' [(''className'', JStr ''table'')]
                   [table_head, Element ''tbody'' [] rows]
           \<and> list_all2 (\<lambda>v row. file_row b im p v = Inr row) vs rows"
  using assms
  by (auto simp: ReportUrls_def Let_def map_exn_Inr split: sum.splits dest!: call_map_Inr)

subsection \<open>No data yet\<close>

text \<open>
  Claim C8. While the data of its fetch is absent or falsy, \<open>ReportUrls\<close> returns an
  empty \<open>div\<close>, and so does \<open>ReportPage\<close> for its own fetch: neither throws nor
  returns anything else, whatever the \<open>error\<close> of the fetch is.
\<close>

theorem no_data_empty_div:
  "(falsy b (data (useSWR im (files_key b im p)))
      \<longrightarrow> ReportUrls b im p = Inr (Element ''div'' [] []))
   \<and> (falsy b (data (useSWR im (report_key b im p)))
      \<longrightarrow> ReportPage b im p = Inr (Element ''div'' [] []))"
  by (simp add: ReportUrls_def ReportPage_def Let_def)

theorem no_data_empty_div_witness:
  "falsy example_builtins
     (data (useSWR failed_env (files_key example_builtins failed_env example_params)))
   \<and> falsy example_builtins
     (data (useSWR failed_env (report_key example_builtins failed_env example_params)))
   \<and> error (useSWR failed_env (files_key example_builtins failed_env example_params))
       = JObj [(''message'', JStr ''Failed to fetch'')]
   \<and> ReportUrls example_builtins failed_env example_params = Inr (Element ''div'' [] [])
   \<and> ReportPage example_builtins failed_env example_params = Inr (Element ''div'' [] [])"
  using no_data_empty_div [of example_builtins failed_env example_params]
  by (simp add: failed_env_def)

subsection \<open>The order of the rows\<close>

text \<open>
  Claim C9. When \<open>ReportUrls\<close> returns a table, the rows of its body are the rows of
  the elements of the response's \<open>result\<close>, one for each element and in the same
  order: the page neither sorts, filters nor removes repeated entries.
\<close>

theorem rows_in_response_order:
  assumes "ReportUrls b im p = Inr t"
    and "\<not> falsy b (data (useSWR im (files_key b im p)))"
  shows "\<exists>vs. get_prop (data (useSWR im (files_key b im p))) ''result'' = Inr (JArr vs)
           \<and> length (table_rows t) = length vs
           \<and> list_all2 (\<lambda>v row. file_row b im p v = Inr row) vs (table_rows t)
           \<and> map (\<lambda>v. get_prop v ''filename'') vs
               = map (\<lambda>row. Inr (row_key row)) (table_rows t)"
proof -
  from ReportUrls_rows [OF assms] obtain vs rows where
    r: "get_prop (data (useSWR im (files_key b im p))) ''result'' = Inr (JArr vs)"
    and t: "t = Element ''table'' [(''className'', JStr ''table'')]
                  [table_head, Element ''tbody'' [] rows]"
    and rows: "list_all2 (\<lambda>v row. file_row b im p v = Inr row) vs rows"
    by blast
  have tr: "table_rows t = rows" by (simp add: t)
  have len: "length rows = length vs" using rows by (simp add: list_all2_lengthD)
  have "map (\<lambda>v. get_prop v ''filename'') vs = map (\<lambda>row. Inr (row_key row)) rows"
    using rows by (induction rule: list_all2_induct) (auto dest: file_row_key)
  with r tr len rows show ?thesis by auto
qed

theorem rows_in_response_order_witness:
  "\<not> falsy example_builtins
       (data (useSWR (answered_env unsorted_body)
          (files_key example_builtins (answered_env unsorted_body) example_params)))
   \<and> (\<exists>t. ReportUrls example_builtins (answered_env unsorted_body) example_params = Inr t
        \<and> map row_key (table_rows t) = [JStr ''b.py'', JStr ''a.py'', JStr ''b.py''])"
proof -
  let ?b = example_builtins and ?im = "answered_env unsorted_body" and ?p = example_params
  have d: "data (useSWR ?im (files_key ?b ?im ?p)) = unsorted_body"
    by (simp add: answered_env_def)
  have nf: "\<not> falsy ?b (data (useSWR ?im (files_key ?b ?im ?p)))"
    unfolding d by (simp add: unsorted_body_def)
  obtain t where t: "ReportUrls ?b ?im ?p = Inr t"
    unfolding ReportUrls_def Let_def d by (simp add: unsorted_body_def file_row_def)
  from rows_in_response_order [OF t nf] obtain vs where
    vs: "get_prop (data (useSWR ?im (files_key ?b ?im ?p))) ''result'' = Inr (JArr vs)"
    and m: "map (\<lambda>v. get_prop v ''filename'') vs
              = map (\<lambda>row. Inr (row_key row)) (table_rows t)"
    by blast
  from vs [unfolded d] have
    "vs = [JObj [(''filename'', JStr ''b.py''), (''line_rate'', JNum 1)],
           JObj [(''filename'', JStr ''a.py''), (''line_rate'', JNum (1 / 2))],
           JObj [(''filename'', JStr ''b.py''), (''line_rate'', JNum 0)]]"
    by (simp add: unsorted_body_def)
  with m have "map (\<lambda>row. Inr (row_key row) :: js_exn + rat js) (table_rows t)
                 = [Inr (JStr ''b.py''), Inr (JStr ''a.py''), Inr (JStr ''b.py'')]"
    by simp
  then have "map row_key (table_rows t) = [JStr ''b.py'', JStr ''a.py'', JStr ''b.py'']"
    by (auto simp: map_eq_Cons_conv)
  with nf t show ?thesis by (intro conjI exI [of _ t])
qed

subsection \<open>The response of the files endpoint on the page\<close>

lemma file_row_file_json:
  "file_row b im p (file_json enc f) =
     Inr (Element ''tr'' [(''key'', JStr (filename f))]
           [Element ''td'' []
              [Element ''Link'' [(''href'', JStr (file_href b p (JStr (filename f))))]
                 [Element ''a'' [] [Expr (JStr (filename f))]]],
            Element ''td'' [(''className'', calcTagClassName im (rate_json enc f))]
              [Expr (JStr (toFixed b (js_times b (rate_json enc f) (JNum (num_lit b 100))) 1)),
               Expr (JStr ''%'')]])"
  by (simp add: file_row_def file_json_def)

text \<open>
  Claim C6. A response of the files endpoint is an object whose \<open>result\<close> is a list
  of records with the fields \<open>filename\<close>, \<open>line_rate\<close>, \<open>total_lines\<close> and
  \<open>covered_lines\<close>. With such a response as its data, \<open>ReportUrls\<close> returns a
  table with one row for each record, in the same order: the row shows the filename (as
  the text of a link to the file) and, in a cell whose class is
  \<open>calcTagClassName(line_rate)\<close>, the text \<open>(line_rate * 100).toFixed(1)\<close> followed
  by a percent sign.
\<close>

theorem files_response_rendered:
  assumes "data (useSWR im (files_key b im p)) = files_body enc fs"
  shows "get_prop (data (useSWR im (files_key b im p))) ''result'' = Inr (JArr (map (file_json enc) fs))
     \<and> list_all (\<lambda>v. js_keys v = [''filename'', ''line_rate'', ''total_lines'', ''covered_lines''])
         (map (file_json enc) fs)
     \<and> ReportUrls b im p =
         Inr (Element ''table'' [(''className'', JStr ''table'')]
               [table_head,
                Element ''tbody'' []
                  (map (\<lambda>f.
                     Element ''tr'' [(''key'', JStr (filename f))]
                       [Element ''td'' []
                          [Element ''Link''
                             [(''href'', JStr (''/'' @ org p @ ''/repos/'' @ repo p @ ''/commits/''
                                 @ commit p @ ''/file?filename='' @ filename f))]
                             [Element ''a'' [] [Expr (JStr (filename f))]]],
                        Element ''td'' [(''className'', calcTagClassName im (rate_json enc f))]
                          [Expr (JStr (toFixed b
                                   (js_times b (rate_json enc f) (JNum (num_lit b 100))) 1)),
                           Expr (JStr ''%'')]]) fs)])"
proof -
  have k: "list_all (\<lambda>v. js_keys v = [''filename'', ''line_rate'', ''total_lines'', ''covered_lines''])
         (map (file_json enc) fs)"
    by (simp add: list_all_iff file_json_def)
  have r: "get_prop (files_body enc fs) ''result'' = Inr (JArr (map (file_json enc) fs))"
    by (simp add: files_body_def)
  have nf: "\<not> falsy b (files_body enc fs)"
    by (simp add: files_body_def)
  have m: "map_exn (file_row b im p) (map (file_json enc) fs)
             = Inr (map (\<lambda>f.
                     Element ''tr'' [(''key'', JStr (filename f))]
                       [Element ''td'' []
                          [Element ''Link''
                             [(''href'', JStr (''/'' @ org p @ ''/repos/'' @ repo p @ ''/commits/''
                                 @ commit p @ ''/file?filename='' @ filename f))]
                             [Element ''a'' [] [Expr (JStr (filename f))]]],
                        Element ''td'' [(''className'', calcTagClassName im (rate_json enc f))]
                          [Expr (JStr (toFixed b
                                   (js_times b (rate_json enc f) (JNum (num_lit b 100))) 1)),
                           Expr (JStr ''%'')]]) fs)"
    by (induction fs) (simp_all add: file_row_file_json file_href_def)
  show ?thesis
    unfolding ReportUrls_def Let_def assms using k r nf m by simp
qed

theorem files_response_rendered_witness:
  "data (useSWR (answered_env (files_body id [f2, f1]))
      (files_key example_builtins (answered_env (files_body id [f2, f1])) example_params))
     = files_body id [f2, f1]
   \<and> ReportUrls example_builtins (answered_env (files_body id [f2, f1])) example_params =
       Inr (Element ''table'' [(''className'', JStr ''table'')]
             [table_head,
              Element ''tbody'' []
                [Element ''tr'' [(''key'', JStr ''f2'')]
                   [Element ''td'' []
                      [Element ''Link''
                         [(''href'', JStr ''/acme/repos/web/commits/4f2a/file?filename=f2'')]
                         [Element ''a'' [] [Expr (JStr ''f2'')]]],
                    Element ''td'' [(''className'', JStr ''is-danger'')]
                      [Expr (JStr ''0.0''), Expr (JStr ''%'')]],
                 Element ''tr'' [(''key'', JStr ''f1'')]
                   [Element ''td'' []
                      [Element ''Link''
                         [(''href'', JStr ''/acme/repos/web/commits/4f2a/file?filename=f1'')]
                         [Element ''a'' [] [Expr (JStr ''f1'')]]],
                    Element ''td'' [(''className'', JStr ''is-success'')]
                      [Expr (JStr ''100.0''), Expr (JStr ''%'')]]]])"
proof -
  let ?im = "answered_env (files_body id [f2, f1])"
  have d: "data (useSWR ?im (files_key example_builtins ?im example_params)) = files_body id [f2, f1]"
    by (simp add: answered_env_def)
  have c: "calcTagClassName ?im = example_tag"
    by (simp add: answered_env_def)
  have r2: "rate_json id f2 = JNum 0" and r1: "rate_json id f1 = JNum 1"
    by (simp_all add: rate_json_def file_line_rate_def f1_def f2_def)
  have t0: "toFixed example_builtins (js_times example_builtins (JNum 0) (JNum (num_lit example_builtins 100))) (Suc 0) = ''0.0''"
    by code_simp
  have t1: "toFixed example_builtins (js_times example_builtins (JNum 1) (JNum (num_lit example_builtins 100))) (Suc 0) = ''100.0''"
    by code_simp
  have g: "example_tag (JNum 0) = JStr ''is-danger''" "example_tag (JNum 1) = JStr ''is-success''"
    by (simp_all add: example_tag_def)
  have n: "filename f1 = ''f1''" "filename f2 = ''f2''"
    by (simp_all add: f1_def f2_def)
  have p: "org example_params = ''acme''" "repo example_params = ''web''" "commit example_params = ''4f2a''"
    by (simp_all add: example_params_def)
  from files_response_rendered [OF d]
  show ?thesis
    unfolding d c by (simp add: r1 r2 t0 t1 g n p)
qed

subsection \<open>Where a rate becomes a percentage\<close>





subsection \<open>The address of a file's link\<close>

lemma length_percent_decode: "length (percent_decode s) \<le> length s"
proof (induction s rule: percent_decode.induct)
  case (1 c h l s)
  show ?case
  proof (cases "c = CHR ''%''")
    case False
    with 1(4) show ?thesis by simp
  next
    case True
    show ?thesis
    proof (cases "hex_digit h")
      case None
      with True 1(1) [OF True refl None] show ?thesis by simp
    next
      case h: (Some x)
      show ?thesis
      proof (cases "hex_digit l")
        case None
        with True h 1(2) [OF True refl h None] show ?thesis by simp
      next
        case (Some y)
        with True h 1(3) [OF True refl h Some] show ?thesis by simp
      qed
    qed
  qed
qed simp_all

lemma length_form_decode: "length (form_decode s) \<le> length s"
  using length_percent_decode [of "map (\<lambda>c. if c = CHR ''+'' then CHR '' '' else c) s"]
  by (simp add: form_decode_def)

lemma split_on_head: "\<exists>ws. split_on sep s = takeWhile (\<lambda>c. c \<noteq> sep) s # ws"
  by (induction s) (auto split: list.splits)

lemma url_query_append:
  assumes "CHR ''?'' \<notin> set pre" and "CHR ''#'' \<notin> set pre"
  shows "url_query (pre @ CHR ''?'' # q) = Some (takeWhile (\<lambda>c. c \<noteq> CHR ''#'') q)"
proof -
  have t: "takeWhile (\<lambda>c. c \<noteq> CHR ''#'') (pre @ CHR ''?'' # q)
             = pre @ CHR ''?'' # takeWhile (\<lambda>c. c \<noteq> CHR ''#'') q"
    using assms(2) by (subst takeWhile_append2) auto
  have d: "dropWhile (\<lambda>c. c \<noteq> CHR ''?'') (pre @ CHR ''?'' # r) = CHR ''?'' # r" for r
    using assms(1) by (subst dropWhile_append2) auto
  show ?thesis by (simp add: url_query_def Let_def t d)
qed

lemma form_decode_filename: "form_decode ''filename'' = ''filename''"
  by (simp add: form_decode_def)

lemma query_pairs_filename:
  "\<exists>ps. query_pairs (''filename='' @ v)
          = (''filename'', form_decode (takeWhile (\<lambda>c. c \<noteq> CHR ''&'') v)) # ps"
proof -
  obtain ws where ws: "split_on CHR ''&'' (''filename='' @ v)
      = takeWhile (\<lambda>c. c \<noteq> CHR ''&'') (''filename='' @ v) # ws"
    using split_on_head by blast
  have w: "takeWhile (\<lambda>c. c \<noteq> CHR ''&'') (''filename='' @ v)
             = ''filename='' @ takeWhile (\<lambda>c. c \<noteq> CHR ''&'') v"
    by simp
  show ?thesis
    unfolding query_pairs_def ws w by (simp add: form_decode_filename)
qed

lemma url_query_fragment_first:
  assumes "CHR ''?'' \<notin> set pre" and "CHR ''#'' \<in> set pre"
  shows "url_query (pre @ rest) = None"
proof -
  have "takeWhile (\<lambda>c. c \<noteq> CHR ''#'') (pre @ rest) = takeWhile (\<lambda>c. c \<noteq> CHR ''#'') pre"
    using assms(2) by (rule takeWhile_append1) simp
  moreover have "CHR ''?'' \<notin> set (takeWhile (\<lambda>c. c \<noteq> CHR ''#'') pre)"
    using assms(1) by (auto dest: set_takeWhileD)
  ultimately show ?thesis by (simp add: url_query_def Let_def)
qed

lemma query_get_file_href:
  assumes "plain_params p"
  shows "query_get ''filename'' (file_href b p (JStr f)) = None
     \<or> query_get ''filename'' (file_href b p (JStr f))
           = Some (form_decode (takeWhile (\<lambda>c. c \<noteq> CHR ''&'') (takeWhile (\<lambda>c. c \<noteq> CHR ''#'') f)))"
proof -
  let ?pre = "''/'' @ org p @ ''/repos/'' @ repo p @ ''/commits/'' @ commit p @ ''/file''"
  have h: "file_href b p (JStr f) = ?pre @ CHR ''?'' # (''filename='' @ f)"
    by (simp add: file_href_def)
  have q: "CHR ''?'' \<notin> set ?pre"
    using assms by (auto simp: plain_params_def plain_segment_def)
  show ?thesis
  proof (cases "CHR ''#'' \<in> set ?pre")
    case True
    from url_query_fragment_first [OF q True, of "CHR ''?'' # (''filename='' @ f)"]
    have "url_query (file_href b p (JStr f)) = None" unfolding h .
    then show ?thesis by (simp add: query_get_def)
  next
    case False
    have u: "url_query (file_href b p (JStr f))
               = Some (''filename='' @ takeWhile (\<lambda>c. c \<noteq> CHR ''#'') f)"
      unfolding h url_query_append [OF q False] by simp
    obtain ps where "query_pairs (''filename='' @ takeWhile (\<lambda>c. c \<noteq> CHR ''#'') f)
         = (''filename'', form_decode (takeWhile (\<lambda>c. c \<noteq> CHR ''&'')
              (takeWhile (\<lambda>c. c \<noteq> CHR ''#'') f))) # ps"
      using query_pairs_filename by blast
    then show ?thesis by (simp add: query_get_def u)
  qed
qed

lemma takeWhile_shorter: "x \<in> set s \<Longrightarrow> length (takeWhile (\<lambda>c. c \<noteq> x) s) < length s"
  by (induction s) auto

text \<open>
  Claim C10, as amended. The address of a row's link is the plain concatenation
  \<open>/{org}/repos/{repo}/commits/{commit}/file?filename={filename}\<close>, with nothing
  encoded. For route parameters without \<^verbatim>\<open>?\<close>, a filename that contains
  \<^verbatim>\<open>&\<close> or \<^verbatim>\<open>#\<close> gives an address whose \<open>filename\<close> parameter is not that
  filename. (A \<^verbatim>\<open>?\<close> in the filename does no harm: the query starts at the first
  \<^verbatim>\<open>?\<close> of the address, and later ones belong to it.)
\<close>

theorem href_raw_concatenation:
  "file_href b p (JStr f)
     = ''/'' @ org p @ ''/repos/'' @ repo p @ ''/commits/'' @ commit p @ ''/file?filename='' @ f
   \<and> (get_prop v ''filename'' = Inr (JStr f)
        \<longrightarrow> (\<exists>row. file_row b im p v = Inr row \<and> row_href row = JStr (file_href b p (JStr f))))
   \<and> (plain_params p \<and> (CHR ''&'' \<in> set f \<or> CHR ''#'' \<in> set f)
        \<longrightarrow> query_get ''filename'' (file_href b p (JStr f)) \<noteq> Some f)"
proof (intro conjI impI)
  show "file_href b p (JStr f)
     = ''/'' @ org p @ ''/repos/'' @ repo p @ ''/commits/'' @ commit p @ ''/file?filename='' @ f"
    by (simp add: file_href_def)
next
  assume "get_prop v ''filename'' = Inr (JStr f)"
  then show "\<exists>row. file_row b im p v = Inr row \<and> row_href row = JStr (file_href b p (JStr f))"
    by (cases v) (auto simp: file_row_def split: sum.splits)
next
  assume a: "plain_params p \<and> (CHR ''&'' \<in> set f \<or> CHR ''#'' \<in> set f)"
  let ?g = "takeWhile (\<lambda>c. c \<noteq> CHR ''#'') f"
  let ?h = "takeWhile (\<lambda>c. c \<noteq> CHR ''&'') ?g"
  have "length ?h < length f"
  proof (cases "CHR ''#'' \<in> set f")
    case True
    then have "length ?g < length f" by (rule takeWhile_shorter)
    moreover have "length ?h \<le> length ?g" by (rule length_takeWhile_le)
    ultimately show ?thesis by simp
  next
    case False
    then have g: "?g = f" by (auto simp: takeWhile_eq_all_conv)
    from False a have "CHR ''&'' \<in> set f" by simp
    then show ?thesis unfolding g by (rule takeWhile_shorter)
  qed
  with length_form_decode [of ?h] have "form_decode ?h \<noteq> f" by auto
  moreover from a have "plain_params p" by simp
  note query_get_file_href [OF this, of b f]
  ultimately show "query_get ''filename'' (file_href b p (JStr f)) \<noteq> Some f"
    by auto
qed

theorem question_mark_round_trips:
  "plain_params example_params
   \<and> CHR ''?'' \<in> set ''a?b''
   \<and> query_get ''filename'' (file_href example_builtins example_params (JStr ''a?b'')) = Some ''a?b''"
  by (simp add: plain_params_def plain_segment_def example_params_def file_href_def
      query_get_def url_query_def query_pairs_def form_decode_def hex_digit_def)

theorem href_raw_concatenation_witness:
  "plain_params example_params
   \<and> CHR ''&'' \<in> set ''R&D/a#1.py''
   \<and> get_prop (JObj [(''filename'', JStr ''R&D/a#1.py''), (''line_rate'', JNum 1)] :: rat js) ''filename'' = Inr (JStr ''R&D/a#1.py'')
   \<and> file_href example_builtins example_params (JStr ''R&D/a#1.py'') = ''/acme/repos/web/commits/4f2a/file?filename=R&D/a#1.py''
   \<and> query_get ''filename'' (file_href example_builtins example_params (JStr ''R&D/a#1.py'')) = Some ''R''
   \<and> query_get ''filename'' (file_href example_builtins example_params (JStr ''R&D/a#1.py'')) \<noteq> Some ''R&D/a#1.py''"
  using href_raw_concatenation [of example_builtins example_params "''R&D/a#1.py''"
      "JObj [(''filename'', JStr ''R&D/a#1.py''), (''line_rate'', JNum 1)]" failed_env]
  by (simp add: plain_params_def plain_segment_def example_params_def file_href_def
      query_get_def url_query_def query_pairs_def form_decode_def hex_digit_def)

text \<open>
  The route parameters are restricted because a \<^verbatim>\<open>?\<close> in one of them starts the
  query early: with a crafted organization the filename \<open>a&b\<close> is read back
  unchanged. A \<^verbatim>\<open>#\<close> in a route parameter needs no restriction: the address then
  has no query at all.
\<close>

lemma crafted_org_round_trips:
  "query_get ''filename''
     (file_href example_builtins \<lparr>org = ''?filename=a%26b&x='', repo = ''web'', commit = ''4f2a''\<rparr>
        (JStr ''a&b'')) = Some ''a&b''"
  by code_simp

lemma fragment_in_org_no_query:
  "plain_params \<lparr>org = ''ac#me'', repo = ''web'', commit = ''4f2a''\<rparr>
   \<and> query_get ''filename''
     (file_href example_builtins \<lparr>org = ''ac#me'', repo = ''web'', commit = ''4f2a''\<rparr>
        (JStr ''a&b'')) = None"
  by (simp add: plain_params_def plain_segment_def file_href_def query_get_def url_query_def)

section \<open>Properties of the engine\<close>

subsection \<open>The Aggregator\<close>

lemma weighted_sum:
  "(\<Sum>f\<leftarrow>executable fs. of_nat (total_lines f) * (of_nat (covered_lines f) / of_nat (total_lines f)))
     = (of_nat (sum_covered fs) :: rat)"
  unfolding sum_covered_def executable_def
  by (induction fs) auto

lemma weight_sum:
  "(\<Sum>f\<leftarrow>executable fs. of_nat (total_lines f)) = (of_nat (sum_total fs) :: rat)"
  unfolding sum_total_def executable_def
  by (induction fs) auto

lemma weighted_mean_rollup: "weighted_mean fs = rollup fs"
  unfolding weighted_mean_def Let_def weighted_sum weight_sum rollup_def by simp

lemma make_draft_rate:
  assumes "make_draft acc now fs = Inr d"
  shows "line_rate d = rollup fs \<and> files d = fs \<and> report_total_lines d = sum_total fs
    \<and> report_covered_lines d = sum_covered fs \<and> uploaded_at d = now"
  using assms by (auto simp: make_draft_def aggregate_def split: option.splits if_splits)

subsection \<open>The Store\<close>

lemma find_append_last:
  assumes "\<forall>x\<in>set xs. \<not> P x"
  shows "find P (xs @ [y]) = (if P y then Some y else None)"
  using assms by (induction xs) auto

lemma retire_fields:
  "report_commit (retire k r) = report_commit r"
  "content_hash (retire k r) = content_hash r"
  "line_rate (retire k r) = line_rate r"
  "files (retire k r) = files r"
  "report_id (retire k r) = report_id r"
  by (simp_all add: retire_def)

lemma retire_current: "report_commit r = k \<Longrightarrow> \<not> current (retire k r)"
  by (simp add: retire_def)

lemma Upload_existing:
  assumes "find (\<lambda>r. report_commit r = k \<and> content_hash r = h) (reports s) = Some r"
  shows "Upload s k h d = (r, s)"
  using assms by (simp add: Upload_def)

lemma Upload_new:
  assumes "find (\<lambda>r. report_commit r = k \<and> content_hash r = h) (reports s) = None"
  shows "reports (snd (Upload s k h d)) = map (retire k) (reports s) @ [fst (Upload s k h d)]
     \<and> report_commit (fst (Upload s k h d)) = k \<and> content_hash (fst (Upload s k h d)) = h
     \<and> current (fst (Upload s k h d))
     \<and> line_rate (fst (Upload s k h d)) = line_rate d \<and> files (fst (Upload s k h d)) = files d
     \<and> report_total_lines (fst (Upload s k h d)) = report_total_lines d
     \<and> report_covered_lines (fst (Upload s k h d)) = report_covered_lines d
     \<and> uploaded_at (fst (Upload s k h d)) = uploaded_at d
     \<and> report_id (fst (Upload s k h d)) = fresh_id s"
  using assms by (simp add: Upload_def Let_def)

lemma upload_endpoint_parts:
  "fst (upload_endpoint acc s k h now fs)
     = (case make_draft acc now fs of Inl e \<Rightarrow> Inl e | Inr d \<Rightarrow> Inr (fst (Upload s k h d)))"
  "snd (upload_endpoint acc s k h now fs)
     = (case make_draft acc now fs of Inl e \<Rightarrow> s | Inr d \<Rightarrow> snd (Upload s k h d))"
  by (simp_all add: upload_endpoint_def split: sum.splits prod.splits)

lemma run_uploads_snoc:
  "run_uploads acc (ups @ [(k, h, now, fs)])
     = snd (upload_endpoint acc (run_uploads acc ups) k h now fs)"
  by (simp add: run_uploads_def)

lemma find_Some_mem: "find P xs = Some x \<Longrightarrow> x \<in> set xs \<and> P x"
  by (induction xs) (auto split: if_splits)

lemma Upload_finds_result:
  "find (\<lambda>r. report_commit r = k \<and> content_hash r = h) (reports (snd (Upload s k h d)))
     = Some (fst (Upload s k h d))"
proof (cases "find (\<lambda>r. report_commit r = k \<and> content_hash r = h) (reports s)")
  case (Some r)
  then show ?thesis by (simp add: Upload_existing)
next
  case None
  note n = Upload_new [OF None, of d]
  have "\<forall>x\<in>set (reports s). \<not> (report_commit x = k \<and> content_hash x = h)"
    using None by (simp add: find_None_iff)
  then have "\<forall>x\<in>set (map (retire k) (reports s)). \<not> (report_commit x = k \<and> content_hash x = h)"
    by (simp add: retire_fields)
  from find_append_last [OF this, of "fst (Upload s k h d)"] show ?thesis
    using n by simp
qed

lemma Upload_current:
  assumes "find (\<lambda>r. report_commit r = k \<and> content_hash r = h) (reports s) = None"
  shows "GetCurrentReport (snd (Upload s k h d)) k = Inr (fst (Upload s k h d))"
proof -
  note n = Upload_new [OF assms, of d]
  have "\<forall>x\<in>set (map (retire k) (reports s)). \<not> (report_commit x = k \<and> current x)"
    by (simp add: retire_fields retire_current)
  from find_append_last [OF this, of "fst (Upload s k h d)"] show ?thesis
    unfolding GetCurrentReport_def using n by simp
qed

lemma Upload_rates:
  assumes "\<forall>r\<in>set (reports s). line_rate r = rollup (files r)"
    and "line_rate d = rollup (files d)"
  shows "\<forall>r\<in>set (reports (snd (Upload s k h d))). line_rate r = rollup (files r)"
proof (cases "find (\<lambda>r. report_commit r = k \<and> content_hash r = h) (reports s)")
  case (Some r)
  then show ?thesis using assms(1) by (simp add: Upload_existing)
next
  case None
  note n = Upload_new [OF None, of d]
  have "\<forall>r\<in>set (map (retire k) (reports s)). line_rate r = rollup (files r)"
    using assms(1) by (simp add: retire_fields)
  then show ?thesis using n assms(2) by simp
qed

lemma upload_endpoint_rates:
  assumes "\<forall>r\<in>set (reports s). line_rate r = rollup (files r)"
  shows "\<forall>r\<in>set (reports (snd (upload_endpoint acc s k h now fs))). line_rate r = rollup (files r)"
proof (cases "make_draft acc now fs")
  case (Inl e)
  then show ?thesis using assms by (simp add: upload_endpoint_parts)
next
  case (Inr d)
  from make_draft_rate [OF Inr] have "line_rate d = rollup (files d)" by simp
  from Upload_rates [OF assms this, of k h] show ?thesis
    by (simp add: upload_endpoint_parts Inr)
qed

lemma run_uploads_rates:
  "\<forall>r\<in>set (reports (run_uploads acc ups)). line_rate r = rollup (files r)"
proof (induction ups rule: rev_induct)
  case Nil
  show ?case by (simp add: run_uploads_def empty_store_def)
next
  case (snoc u ups)
  obtain k h now fs where u: "u = (k, h, now, fs)" by (cases u) auto
  show ?case unfolding u run_uploads_snoc by (rule upload_endpoint_rates [OF snoc.IH])
qed

lemma Upload_unique:
  assumes "distinct (map (\<lambda>r. (report_commit r, content_hash r)) (reports s))"
  shows "distinct (map (\<lambda>r. (report_commit r, content_hash r)) (reports (snd (Upload s k h d))))"
proof (cases "find (\<lambda>r. report_commit r = k \<and> content_hash r = h) (reports s)")
  case (Some r)
  then show ?thesis using assms by (simp add: Upload_existing)
next
  case None
  note n = Upload_new [OF None, of d]
  have same: "map (\<lambda>r. (report_commit r, content_hash r)) (map (retire k) rs)
              = map (\<lambda>r. (report_commit r, content_hash r)) rs" for rs
    by (induction rs) (simp_all add: retire_fields)
  have fresh: "(k, h) \<notin> set (map (\<lambda>r. (report_commit r, content_hash r)) (reports s))"
    using None by (auto simp: find_None_iff)
  have "reports (snd (Upload s k h d)) = map (retire k) (reports s) @ [fst (Upload s k h d)]"
    using n by simp
  then have "map (\<lambda>r. (report_commit r, content_hash r)) (reports (snd (Upload s k h d)))
      = map (\<lambda>r. (report_commit r, content_hash r)) (reports s) @ [(k, h)]"
    using n same [of "reports s"] by simp
  then show ?thesis using assms fresh by simp
qed

lemma upload_endpoint_unique:
  assumes "distinct (map (\<lambda>r. (report_commit r, content_hash r)) (reports s))"
  shows "distinct (map (\<lambda>r. (report_commit r, content_hash r))
           (reports (snd (upload_endpoint acc s k h now fs))))"
proof (cases "make_draft acc now fs")
  case (Inl e)
  then show ?thesis using assms by (simp add: upload_endpoint_parts)
next
  case (Inr d)
  from Upload_unique [OF assms, of k h d] show ?thesis
    by (simp add: upload_endpoint_parts Inr)
qed

lemma run_uploads_unique:
  "distinct (map (\<lambda>r. (report_commit r, content_hash r)) (reports (run_uploads acc ups)))"
proof (induction ups rule: rev_induct)
  case Nil
  show ?case by (simp add: run_uploads_def empty_store_def)
next
  case (snoc u ups)
  obtain k h now fs where u: "u = (k, h, now, fs)" by (cases u) auto
  show ?case unfolding u run_uploads_snoc by (rule upload_endpoint_unique [OF snoc.IH])
qed

lemma distinct_count_one:
  assumes "distinct (map g xs)" and "x \<in> set xs"
  shows "length (filter (\<lambda>y. g y = g x) xs) = 1"
  using assms
proof (induction xs)
  case Nil
  then show ?case by simp
next
  case (Cons a xs)
  show ?case
  proof (cases "g a = g x")
    case True
    have na: "g x \<notin> g ` set xs" using Cons.prems(1) True by simp
    have "\<forall>y\<in>set xs. g y \<noteq> g x"
    proof
      fix y
      assume "y \<in> set xs"
      then have "g y \<in> g ` set xs" by (rule imageI)
      with na show "g y \<noteq> g x" by auto
    qed
    then have "filter (\<lambda>y. g y = g x) xs = []" by (simp add: filter_empty_conv)
    with True show ?thesis by simp
  next
    case False
    with Cons show ?thesis by auto
  qed
qed

lemma make_draft_now:
  assumes "make_draft acc now fs = Inr d"
  shows "\<exists>d'. make_draft acc now' fs = Inr d'"
  using assms by (auto simp: make_draft_def split: sum.splits if_splits)

lemma sort_key_perm:
  assumes "mset xs = mset ys" and "distinct (map f ys)"
  shows "sort_key f xs = sort_key f ys"
proof -
  have inj: "inj_on f (set ys)" using assms(2) by (simp add: distinct_map)
  have sets: "set xs = set ys" using assms(1) by (rule mset_eq_setD)
  have "mset (map f xs) = mset (map f ys)" using assms(1) by simp
  then have dx: "distinct (map f xs)" using assms(2) by (metis mset_eq_imp_distinct_iff)
  have "map f (sort_key f xs) = map f (sort_key f ys)"
  proof (rule sorted_distinct_set_unique)
    show "sorted (map f (sort_key f xs))" by (rule sorted_sort_key)
    show "sorted (map f (sort_key f ys))" by (rule sorted_sort_key)
    show "distinct (map f (sort_key f xs))" using dx by (simp add: distinct_map)
    show "distinct (map f (sort_key f ys))" using assms(2) by (simp add: distinct_map)
    show "set (map f (sort_key f xs)) = set (map f (sort_key f ys))" using sets by simp
  qed
  moreover have "inj_on f (set (sort_key f xs) \<union> set (sort_key f ys))"
    using inj sets by simp
  ultimately show ?thesis by (simp add: inj_on_map_eq_map)
qed

subsection \<open>The example store\<close>

lemma first_upload:
  "run_uploads True [(example_commit, ''77aa'', 50, [f3])]
     = \<lparr>organizations = [''acme''], repositories = [(''acme'', ''web'')],
        commits = [example_commit], reports = [earlier_report\<lparr>current := True\<rparr>]\<rparr>"
  by (simp add: run_uploads_def upload_endpoint_def make_draft_def aggregate_def rollup_def
      sum_total_def sum_covered_def executable_def Upload_def Let_def fresh_id_def upsert_def
      empty_store_def earlier_report_def example_commit_def f3_def)

lemma second_upload:
  "upload_endpoint True (run_uploads True [(example_commit, ''77aa'', 50, [f3])])
      example_commit ''9c1d'' 100 [f2, f1] = (Inr stored_report, example_store)"
  unfolding first_upload
  by (simp add: upload_endpoint_def make_draft_def aggregate_def rollup_def
      sum_total_def sum_covered_def executable_def Upload_def Let_def fresh_id_def upsert_def retire_def
      earlier_report_def stored_report_def example_store_def example_commit_def f1_def f2_def f3_def)

lemma run_example_uploads: "run_uploads True example_uploads = example_store"
  using run_uploads_snoc [of True "[(example_commit, ''77aa'', 50, [f3])]" example_commit "''9c1d''" 100 "[f2, f1]"]
  by (simp add: example_uploads_def second_upload)

subsection \<open>The rate of a report\<close>

text \<open>
  Claim C1. In every store that uploads can produce, the \<open>line_rate\<close> of every
  Report is the line-weighted mean of the rates of its files, which is the sum of
  \<open>covered_lines\<close> over the sum of \<open>total_lines\<close>, both taken over the files with
  \<open>total_lines > 0\<close> only. In particular, after the upload of a payload with the
  files \<open>f1\<close> (10 of 10 lines) and \<open>f2\<close> (0 of 10) for a commit,
  \<open>GetCurrentReport\<close> and \<open>GET report\<close> give the rate \<open>1/2\<close>.
\<close>

theorem report_rate_weighted_mean:
  "(\<forall>r\<in>set (reports (run_uploads acc ups)).
       line_rate r = weighted_mean (files r)
     \<and> line_rate r = (if sum_total (files r) = 0 then None
                      else Some (of_nat (sum_covered (files r)) / of_nat (sum_total (files r)))))
   \<and> (find (\<lambda>r. report_commit r = k \<and> content_hash r = h) (reports s) = None \<longrightarrow>
       (\<exists>r. fst (upload_endpoint acc s k h now [f1, f2]) = Inr r
          \<and> GetCurrentReport (snd (upload_endpoint acc s k h now [f1, f2])) k = Inr r
          \<and> files r = [f1, f2] \<and> line_rate r = Some (1 / 2)
          \<and> get_report (snd (upload_endpoint acc s k h now [f1, f2])) k
              = Ok200 \<lparr>summary_line_rate = Some (1 / 2), summary_total_lines = 20,
                       summary_covered_lines = 10\<rparr>))"
proof (intro conjI impI ballI)
  fix r
  assume "r \<in> set (reports (run_uploads acc ups))"
  with run_uploads_rates [of acc ups] have l: "line_rate r = rollup (files r)" by blast
  then show "line_rate r = weighted_mean (files r)" by (simp add: weighted_mean_rollup)
  from l show "line_rate r = (if sum_total (files r) = 0 then None
                      else Some (of_nat (sum_covered (files r)) / of_nat (sum_total (files r))))"
    by (simp add: rollup_def)
next
  assume none: "find (\<lambda>r. report_commit r = k \<and> content_hash r = h) (reports s) = None"
  have t: "sum_total [f1, f2] = 20" and c: "sum_covered [f1, f2] = 10"
    by (simp_all add: sum_total_def sum_covered_def executable_def f1_def f2_def)
  have ro: "rollup [f1, f2] = Some (1 / 2)"
    by (simp add: rollup_def t c)
  define d where "d = \<lparr>uploaded_at = now, line_rate = Some (1 / 2 :: rat), report_total_lines = 20,
               report_covered_lines = 10, files = [f1, f2]\<rparr>"
  have d: "make_draft acc now [f1, f2] = Inr d"
    by (simp add: make_draft_def aggregate_def ro t c d_def)
  let ?s' = "snd (upload_endpoint acc s k h now [f1, f2])"
  let ?r = "fst (Upload s k h d)"
  note n = Upload_new [OF none, of d]
  have a: "fst (upload_endpoint acc s k h now [f1, f2]) = Inr ?r"
    by (simp add: upload_endpoint_parts d)
  have b: "GetCurrentReport ?s' k = Inr ?r"
    using Upload_current [OF none, of d] by (simp add: upload_endpoint_parts d)
  have fr: "files ?r = [f1, f2]" and lr: "line_rate ?r = Some (1 / 2)"
    and tr: "report_total_lines ?r = 20" and cr: "report_covered_lines ?r = 10"
    using n by (simp_all add: d_def)
  have g: "get_report ?s' k = Ok200 \<lparr>summary_line_rate = Some (1 / 2), summary_total_lines = 20,
                       summary_covered_lines = 10\<rparr>"
    by (simp add: get_report_def b lr tr cr)
  from a b fr lr g show "\<exists>r. fst (upload_endpoint acc s k h now [f1, f2]) = Inr r
          \<and> GetCurrentReport ?s' k = Inr r
          \<and> files r = [f1, f2] \<and> line_rate r = Some (1 / 2)
          \<and> get_report ?s' k
              = Ok200 \<lparr>summary_line_rate = Some (1 / 2), summary_total_lines = 20,
                       summary_covered_lines = 10\<rparr>"
    by blast
qed

theorem report_rate_weighted_mean_witness:
  "stored_report \<in> set (reports (run_uploads True example_uploads))
   \<and> line_rate stored_report = Some (1 / 2)
   \<and> weighted_mean (files stored_report) = Some (1 / 2)
   \<and> find (\<lambda>r. report_commit r = example_commit \<and> content_hash r = ''9c1d'') (reports empty_store) = None
   \<and> get_report (snd (upload_endpoint True empty_store example_commit ''9c1d'' 100 [f1, f2])) example_commit
       = Ok200 \<lparr>summary_line_rate = Some (1 / 2), summary_total_lines = 20, summary_covered_lines = 10\<rparr>"
proof -
  have mem: "stored_report \<in> set (reports (run_uploads True example_uploads))"
    by (simp add: run_example_uploads example_store_def)
  have n: "find (\<lambda>r. report_commit r = example_commit \<and> content_hash r = ''9c1d'') (reports empty_store) = None"
    by (simp add: empty_store_def)
  have l: "line_rate stored_report = Some (1 / 2)" by (simp add: stored_report_def)
  from report_rate_weighted_mean [of True example_uploads example_commit "''9c1d''" empty_store 100] mem n l
  show ?thesis by auto
qed

subsection \<open>Uploading the same content twice\<close>

text \<open>Under the default policy every upload is accepted.\<close>

lemma upload_accepted_by_default:
  "\<exists>r. fst (upload_endpoint True s k h now fs) = Inr r"
  by (simp add: upload_endpoint_parts make_draft_def split: sum.splits)

text \<open>
  Claim C2. When an upload for a commit has been accepted, uploading the same content
  (same content hash, same files) for that commit again returns the same Report (so
  the same Report id) and leaves the store as it was; the store holds exactly one
  Report with that commit and content hash.
\<close>

theorem upload_idempotent:
  assumes "upload_endpoint acc (run_uploads acc ups) k h now fs = (Inr r1, s1)"
  shows "upload_endpoint acc s1 k h now' fs = (Inr r1, s1)
     \<and> r1 \<in> set (reports s1)
     \<and> length (filter (\<lambda>r. report_commit r = k \<and> content_hash r = h) (reports s1)) = 1"
proof -
  let ?s = "run_uploads acc ups"
  from assms have f: "fst (upload_endpoint acc ?s k h now fs) = Inr r1"
    and s: "snd (upload_endpoint acc ?s k h now fs) = s1"
    by simp_all
  from f obtain d where d: "make_draft acc now fs = Inr d"
    by (cases "make_draft acc now fs") (simp_all add: upload_endpoint_parts)
  from f s d have r1: "fst (Upload ?s k h d) = r1" and s1: "snd (Upload ?s k h d) = s1"
    by (simp_all add: upload_endpoint_parts)
  from Upload_finds_result [of k h ?s d]
  have found: "find (\<lambda>r. report_commit r = k \<and> content_hash r = h) (reports s1) = Some r1"
    by (simp add: r1 s1)
  from make_draft_now [OF d, of now'] obtain d' where d': "make_draft acc now' fs = Inr d'"
    by blast
  have again: "upload_endpoint acc s1 k h now' fs = (Inr r1, s1)"
    by (simp add: upload_endpoint_def d' Upload_existing [OF found])
  from find_Some_mem [OF found] have mem: "r1 \<in> set (reports s1)"
    and kh: "report_commit r1 = k" "content_hash r1 = h"
    by simp_all
  have "s1 = run_uploads acc (ups @ [(k, h, now, fs)])"
    by (simp add: run_uploads_snoc s)
  then have "distinct (map (\<lambda>r. (report_commit r, content_hash r)) (reports s1))"
    by (simp only: run_uploads_unique)
  from distinct_count_one [OF this mem]
  have "length (filter (\<lambda>r. report_commit r = k \<and> content_hash r = h) (reports s1)) = 1"
    by (simp add: kh)
  with again mem show ?thesis by simp
qed

theorem upload_idempotent_witness:
  "upload_endpoint True (run_uploads True [(example_commit, ''77aa'', 50, [f3])])
      example_commit ''9c1d'' 100 [f2, f1] = (Inr stored_report, example_store)
   \<and> upload_endpoint True example_store example_commit ''9c1d'' 260 [f2, f1]
      = (Inr stored_report, example_store)
   \<and> report_id stored_report = 2
   \<and> length (filter (\<lambda>r. report_commit r = example_commit \<and> content_hash r = ''9c1d'')
        (reports example_store)) = 1"
  using upload_idempotent [OF second_upload, of 260] second_upload
  by (simp add: stored_report_def)

subsection \<open>The order of the file rows\<close>

text \<open>
  Claim C3. \<open>ListFiles\<close> returns all file rows of the current Report, sorted by
  filename ascending, and the files endpoint returns them in that order. The order in
  which the uploaded payload lists its files does not matter: after an accepted upload
  of any arrangement of the same files (with distinct names), the listing is the same
  sorted list.
\<close>

theorem list_files_sorted:
  "(GetCurrentReport s k = Inr r \<longrightarrow>
      (\<exists>out. ListFiles s k = Inr out \<and> sorted (map filename out) \<and> mset out = mset (files r)
         \<and> get_files enc s k = Ok200 (JObj [(''result'', JArr (map (file_json enc) out))])))
   \<and> (find (\<lambda>r. report_commit r = k \<and> content_hash r = h) (reports s) = None
        \<and> make_draft acc now fs' = Inr d \<and> mset fs' = mset fs \<and> distinct (map filename fs) \<longrightarrow>
      ListFiles (snd (upload_endpoint acc s k h now fs')) k = Inr (sort_key filename fs))"
proof (intro conjI impI)
  assume c: "GetCurrentReport s k = Inr r"
  have "ListFiles s k = Inr (sort_key filename (files r))"
    by (simp add: ListFiles_def c)
  moreover have "sorted (map filename (sort_key filename (files r)))"
    by (rule sorted_sort_key)
  moreover have "mset (sort_key filename (files r)) = mset (files r)"
    by simp
  ultimately show "\<exists>out. ListFiles s k = Inr out \<and> sorted (map filename out)
      \<and> mset out = mset (files r)
      \<and> get_files enc s k = Ok200 (JObj [(''result'', JArr (map (file_json enc) out))])"
    by (simp add: get_files_def files_body_def)
next
  assume a: "find (\<lambda>r. report_commit r = k \<and> content_hash r = h) (reports s) = None
        \<and> make_draft acc now fs' = Inr d \<and> mset fs' = mset fs \<and> distinct (map filename fs)"
  then have none: "find (\<lambda>r. report_commit r = k \<and> content_hash r = h) (reports s) = None"
    and d: "make_draft acc now fs' = Inr d" and p: "mset fs' = mset fs"
    and dist: "distinct (map filename fs)"
    by simp_all
  have fd: "files d = fs'" using make_draft_rate [OF d] by simp
  have "GetCurrentReport (snd (upload_endpoint acc s k h now fs')) k = Inr (fst (Upload s k h d))"
    using Upload_current [OF none, of d] by (simp add: upload_endpoint_parts d)
  moreover have "files (fst (Upload s k h d)) = fs'"
    using Upload_new [OF none, of d] fd by simp
  ultimately have "ListFiles (snd (upload_endpoint acc s k h now fs')) k = Inr (sort_key filename fs')"
    by (simp add: ListFiles_def)
  with sort_key_perm [OF p dist] show
    "ListFiles (snd (upload_endpoint acc s k h now fs')) k = Inr (sort_key filename fs)"
    by simp
qed

theorem list_files_sorted_witness:
  "GetCurrentReport example_store example_commit = Inr stored_report
   \<and> files stored_report = [f2, f1]
   \<and> ListFiles example_store example_commit = Inr [f1, f2]
   \<and> get_files id example_store example_commit
       = Ok200 (JObj [(''result'', JArr [file_json id f1, file_json id f2])])
   \<and> find (\<lambda>r. report_commit r = example_commit \<and> content_hash r = ''9c1d'') (reports empty_store) = None
   \<and> make_draft True 100 [f2, f1] = Inr \<lparr>uploaded_at = 100, line_rate = Some (1 / 2), report_total_lines = 20,
               report_covered_lines = 10, files = [f2, f1]\<rparr>
   \<and> mset [f2, f1] = mset [f1, f2]
   \<and> distinct (map filename [f1, f2])
   \<and> ListFiles (snd (upload_endpoint True empty_store example_commit ''9c1d'' 100 [f2, f1])) example_commit
       = Inr [f1, f2]"
proof -
  have c: "GetCurrentReport example_store example_commit = Inr stored_report"
    by (simp add: GetCurrentReport_def example_store_def earlier_report_def stored_report_def)
  have n: "find (\<lambda>r. report_commit r = example_commit \<and> content_hash r = ''9c1d'') (reports empty_store) = None"
    by (simp add: empty_store_def)
  have d: "make_draft True 100 [f2, f1] = Inr \<lparr>uploaded_at = 100, line_rate = Some (1 / 2), report_total_lines = 20,
               report_covered_lines = 10, files = [f2, f1]\<rparr>"
    by (simp add: make_draft_def aggregate_def rollup_def sum_total_def sum_covered_def
        executable_def f1_def f2_def)
  have m: "mset [f2, f1] = mset [f1, f2]" by (simp add: add.commute)
  have di: "distinct (map filename [f1, f2])" by (simp add: f1_def f2_def)
  have so1: "sort_key filename [f1, f2] = [f1, f2]"
    by code_simp
  have so2: "sort_key filename [f2, f1] = [f1, f2]"
    by code_simp
  note so = so1 so2
  have fs: "files stored_report = [f2, f1]" by (simp add: stored_report_def)
  have lf: "ListFiles example_store example_commit = Inr [f1, f2]"
    by (simp only: ListFiles_def c fs so2 sum.case)
  from list_files_sorted [where s = example_store and k = example_commit and r = stored_report
        and enc = id, THEN conjunct1, rule_format, OF c]
  obtain out where o: "ListFiles example_store example_commit = Inr out"
    and g: "get_files id example_store example_commit
       = Ok200 (JObj [(''result'', JArr (map (file_json id) out))])"
    by blast
  from o lf have "out = [f1, f2]" by simp
  with g have gf: "get_files id example_store example_commit
       = Ok200 (JObj [(''result'', JArr [file_json id f1, file_json id f2])])"
    by simp
  have "ListFiles (snd (upload_endpoint True empty_store example_commit ''9c1d'' 100 [f2, f1]))
          example_commit = Inr (sort_key filename [f1, f2])"
    by (rule list_files_sorted [where s = empty_store and k = example_commit and h = "''9c1d''"
        and acc = True and now = 100 and fs' = "[f2, f1]" and fs = "[f1, f2]",
        THEN conjunct2, rule_format]) (rule conjI [OF n conjI [OF d conjI [OF m di]]])
  then have up: "ListFiles (snd (upload_endpoint True empty_store example_commit ''9c1d'' 100 [f2, f1]))
          example_commit = Inr [f1, f2]"
    by (simp only: so1)
  from c fs lf gf n d m di up show ?thesis by (intro conjI)
qed

end
